theory Spec2Isabelle
  imports Main "HOL-Library.Word"
begin

unbundle bit_operations_syntax

section \<open>Machine model\<close>

text \<open>
  The three allocators are C code over \<open>size_t\<close> and raw pointers.  \<open>size_t\<close> is taken
  as the 64-bit unsigned integer of an LP64 target: \<open>+\<close>, \<open>-\<close> and \<open>*\<close> wrap modulo
  \<open>2 ^ 64\<close>, \<open>div\<close> and the comparisons are unsigned.  A pointer held in a struct field
  or passed as an argument is its 64-bit address, the null pointer being address \<open>0\<close>.

  A pointer to an allocator struct (the handle) is an \<open>option\<close>: \<open>None\<close> is the null
  handle, \<open>Some s\<close> a handle whose pointee currently holds \<open>s\<close>.  A function that
  writes through the handle returns the new pointee next to its result.

  The result of an allocation is an \<open>addr option\<close>: \<open>None\<close> where the source executes
  \<open>return NULL\<close>, \<open>Some p\<close> where it returns the pointer \<open>p\<close> it computed from the
  buffer base.
\<close>

type_synonym size_t = "64 word"
type_synonym addr = "64 word"

text \<open>What the C code can do besides returning: the run-time faults of the source.\<close>

datatype fault = NullDeref | DivByZero | OutOfBounds

text \<open>
  Some calls of the stack allocator hand no value to their caller: those that leave a
  value-returning function through a bare \<open>return;\<close>, and those of a function whose
  definition is headed \<open>void\<close>.  Their result is \<open>NoValue\<close>.
\<close>

datatype 'a ret = Ret 'a | NoValue

section \<open>The arena allocator (\<open>arena_t\<close>)\<close>

text \<open>
  \<^verbatim>\<open>typedef struct { uint8_t *data; size_t size; size_t capacity; } arena_t;\<close>
  The fields carry the prefix \<open>arena_\<close>, the stack allocator has fields of the same names.
\<close>

record arena_t =
  arena_data :: addr
  arena_size :: size_t
  arena_capacity :: size_t

text \<open>
  \<open>arena_init\<close>: \<open>hp\<close> is what \<open>malloc(sizeof(arena_t))\<close> answered and \<open>buf\<close> what
  \<open>calloc(capacity, 1)\<close> answered; the memory provider is outside the repository.
\<close>

definition arena_init :: "addr \<Rightarrow> addr \<Rightarrow> size_t \<Rightarrow> arena_t option" where
  "arena_init hp buf capacity =
     (if hp = 0 then None
      else if buf = 0 then None
      else Some \<lparr>arena_data = buf, arena_size = 0, arena_capacity = capacity\<rparr>)"

text \<open>
  \<open>arena_alloc\<close>.  The C condition \<open>bytes > capacity || size > capacity - bytes\<close> is
  short-circuit: the second test, with its subtraction, runs only when the first is false.
\<close>

definition arena_alloc :: "arena_t option \<Rightarrow> size_t \<Rightarrow> addr option \<times> arena_t option" where
  "arena_alloc arena bytes =
     (case arena of
        None \<Rightarrow> (None, None)
      | Some a \<Rightarrow>
          if bytes > arena_capacity a then (None, Some a)
          else if arena_size a > arena_capacity a - bytes then (None, Some a)
          else (Some (arena_data a + arena_size a),
                Some (a\<lparr>arena_size := arena_size a + bytes\<rparr>)))"

definition arena_reset :: "arena_t option \<Rightarrow> arena_t option" where
  "arena_reset arena =
     (case arena of
        None \<Rightarrow> None
      | Some a \<Rightarrow> Some (a\<lparr>arena_size := 0\<rparr>))"

section \<open>The stack allocator (\<open>MemStack\<close>)\<close>

text \<open>
  \<^verbatim>\<open>typedef struct { uint8_t *data; size_t size; size_t capacity; } MemStack;\<close>
\<close>

record MemStack =
  stack_data :: addr
  stack_size :: size_t
  stack_capacity :: size_t

definition mem_stack_init :: "addr \<Rightarrow> addr \<Rightarrow> size_t \<Rightarrow> MemStack option" where
  "mem_stack_init hp buf bytes =
     (if hp = 0 then None
      else if buf = 0 then None
      else Some \<lparr>stack_data = buf, stack_size = 0, stack_capacity = bytes\<rparr>)"

text \<open>
  \<open>mem_stack_alloc\<close>: the bound is tested on the \<open>size_t\<close> sum \<open>size + bytes\<close>.  On a
  null handle the source executes \<open>return;\<close>.
\<close>

definition mem_stack_alloc ::
    "MemStack option \<Rightarrow> size_t \<Rightarrow> addr option ret \<times> MemStack option" where
  "mem_stack_alloc stack bytes =
     (case stack of
        None \<Rightarrow> (NoValue, None)
      | Some s \<Rightarrow>
          if stack_size s + bytes > stack_capacity s then (Ret None, Some s)
          else (Ret (Some (stack_data s + stack_size s)),
                Some (s\<lparr>stack_size := stack_size s + bytes\<rparr>)))"

text \<open>
  \<open>mem_stack_pop\<close>.  Its prototype returns \<open>int\<close>, but its definition is headed
  \<open>void\<close>: the expressions of its \<open>return 0;\<close> and \<open>return 1;\<close> belong to a function
  that returns nothing, so on every path, as on the bare \<open>return;\<close> of the null
  handle, no value reaches the caller.  The result type keeps the prototype's \<open>int\<close>;
  the result is \<open>NoValue\<close> throughout.
\<close>

definition mem_stack_pop :: "MemStack option \<Rightarrow> size_t \<Rightarrow> int ret \<times> MemStack option" where
  "mem_stack_pop stack bytes =
     (case stack of
        None \<Rightarrow> (NoValue, None)
      | Some s \<Rightarrow>
          if bytes > stack_size s then (NoValue, Some s)
          else (NoValue, Some (s\<lparr>stack_size := stack_size s - bytes\<rparr>)))"

section \<open>The pool allocator (\<open>pool_t\<close>)\<close>

text \<open>
  \<^verbatim>\<open>typedef struct { size_t chunk_size; size_t n_chunks; uint8_t *data; uint8_t *ledger; } pool_t;\<close>
  \<open>pool_data\<close> and \<open>pool_ledger\<close> are the two pointers; \<open>ledger_bytes\<close> is the byte
  array the ledger pointer owns, one bit per chunk.
\<close>

record pool_t =
  chunk_size :: size_t
  n_chunks :: size_t
  pool_data :: addr
  pool_ledger :: addr
  ledger_bytes :: "8 word list"

text \<open>
  The ledger macros.  Each one indexes byte \<open>index / 8\<close>; an index past the end of the
  array is an out-of-bounds access.  The mask \<open>1 << (index % 8)\<close> fits a byte.
\<close>

definition ledger_mask :: "size_t \<Rightarrow> 8 word" where
  "ledger_mask index = push_bit (unat (index mod 8)) 1"

definition CHECK_BIT :: "8 word list \<Rightarrow> size_t \<Rightarrow> fault + bool" where
  "CHECK_BIT bitmap index =
     (if unat (index div 8) < length bitmap
      then Inr ((bitmap ! unat (index div 8)) AND ledger_mask index \<noteq> 0)
      else Inl OutOfBounds)"

definition SET_BIT :: "8 word list \<Rightarrow> size_t \<Rightarrow> fault + 8 word list" where
  "SET_BIT bitmap index =
     (if unat (index div 8) < length bitmap
      then Inr (bitmap[unat (index div 8) :=
                  (bitmap ! unat (index div 8)) OR ledger_mask index])
      else Inl OutOfBounds)"

definition CLEAR_BIT :: "8 word list \<Rightarrow> size_t \<Rightarrow> fault + 8 word list" where
  "CLEAR_BIT bitmap index =
     (if unat (index div 8) < length bitmap
      then Inr (bitmap[unat (index div 8) :=
                  (bitmap ! unat (index div 8)) AND NOT (ledger_mask index)])
      else Inl OutOfBounds)"

text \<open>
  \<open>pool_init\<close>: \<open>hp\<close>, \<open>dp\<close> and \<open>lp\<close> are the answers of \<open>malloc(sizeof(pool_t))\<close>,
  \<open>calloc(n_chunks, chunk_size)\<close> and \<open>calloc(ledger_size, 1)\<close>.  The ledger starts
  zero-filled, \<open>(n_chunks + 7) / 8\<close> bytes long in \<open>size_t\<close> arithmetic.
\<close>

definition pool_init :: "addr \<Rightarrow> addr \<Rightarrow> addr \<Rightarrow> size_t \<Rightarrow> size_t \<Rightarrow> pool_t option" where
  "pool_init hp dp lp csize n =
     (if hp = 0 then None
      else if dp = 0 then None
      else if lp = 0 then None
      else Some \<lparr>chunk_size = csize, n_chunks = n, pool_data = dp, pool_ledger = lp,
                 ledger_bytes = replicate (unat ((n + 7) div 8)) 0\<rparr>)"

text \<open>The \<open>for\<close> loop of \<open>pool_alloc\<close>, from index \<open>i\<close> on.\<close>

function pool_alloc_loop :: "pool_t \<Rightarrow> size_t \<Rightarrow> fault + (addr option \<times> pool_t)" where
  "pool_alloc_loop pool i =
     (if i < n_chunks pool then
        (case CHECK_BIT (ledger_bytes pool) i of
           Inl e \<Rightarrow> Inl e
         | Inr used \<Rightarrow>
             if \<not> used then
               (case SET_BIT (ledger_bytes pool) i of
                  Inl e \<Rightarrow> Inl e
                | Inr l \<Rightarrow>
                    Inr (Some (pool_data pool + i * chunk_size pool),
                         pool\<lparr>ledger_bytes := l\<rparr>))
             else pool_alloc_loop pool (i + 1))
      else Inr (None, pool))"
  by pat_completeness auto
termination
proof (relation "measure (\<lambda>(pool, i). unat (n_chunks pool) - unat i)")
  show "wf (measure (\<lambda>(pool, i). unat (n_chunks pool) - unat i))"
    by simp
next
  fix pool :: pool_t and i :: size_t and x2 :: bool
  assume lt: "i < n_chunks pool"
  then have "unat i < unat (n_chunks pool)"
    by (simp add: word_less_nat_alt)
  moreover have "unat (n_chunks pool) < 2 ^ 64"
    using unsigned_less [of "n_chunks pool"] by simp
  ultimately have "unat i + unat (1 :: size_t) < 2 ^ LENGTH(64)"
    by simp
  then have "unat (i + 1) = unat i + unat (1 :: size_t)"
    by (simp only: unat_add_lem)
  with \<open>unat i < unat (n_chunks pool)\<close>
  show "((pool, i + 1), (pool, i)) \<in> measure (\<lambda>(pool, i). unat (n_chunks pool) - unat i)"
    by simp
qed

declare pool_alloc_loop.simps [simp del]

text \<open>\<open>pool_alloc\<close> reads \<open>pool->n_chunks\<close> with no test of \<open>pool\<close>.\<close>

definition pool_alloc :: "pool_t option \<Rightarrow> fault + (addr option \<times> pool_t)" where
  "pool_alloc pool =
     (case pool of
        None \<Rightarrow> Inl NullDeref
      | Some p \<Rightarrow> pool_alloc_loop p 0)"

text \<open>
  \<open>pool_free\<close>.  The pointer difference is divided by the \<open>size_t\<close> field \<open>chunk_size\<close>,
  so the division is unsigned, on the difference modulo \<open>2 ^ 64\<close>; a zero \<open>chunk_size\<close>
  makes it a division by zero.
\<close>

definition pool_free :: "pool_t option \<Rightarrow> addr \<Rightarrow> fault + pool_t option" where
  "pool_free pool chunk =
     (if chunk = 0 then Inr pool
      else case pool of
        None \<Rightarrow> Inr None
      | Some p \<Rightarrow>
          if pool_data p = 0 \<or> pool_ledger p = 0 then Inr (Some p)
          else if chunk_size p = 0 then Inl DivByZero
          else let index = (chunk - pool_data p) div chunk_size p in
            if index < n_chunks p then
              (case CLEAR_BIT (ledger_bytes p) index of
                 Inl e \<Rightarrow> Inl e
               | Inr l \<Rightarrow> Inr (Some (p\<lparr>ledger_bytes := l\<rparr>)))
            else Inr (Some p))"

section \<open>Sequences of calls\<close>

text \<open>
  A client is a list of calls on one handle.  Each step applies the call to the handle
  and keeps the pointee it leaves; a pool step that faults ends the run with the fault.
\<close>

datatype arena_op = ArenaAlloc size_t | ArenaReset

fun arena_step :: "arena_t option \<Rightarrow> arena_op \<Rightarrow> arena_t option" where
  "arena_step h (ArenaAlloc bytes) = snd (arena_alloc h bytes)"
| "arena_step h ArenaReset = arena_reset h"

datatype stack_op = StackAlloc size_t | StackPop size_t

fun stack_step :: "MemStack option \<Rightarrow> stack_op \<Rightarrow> MemStack option" where
  "stack_step h (StackAlloc bytes) = snd (mem_stack_alloc h bytes)"
| "stack_step h (StackPop bytes) = snd (mem_stack_pop h bytes)"

text \<open>The results of a list of allocation requests, made one after the other.\<close>

fun arena_allocs :: "arena_t option \<Rightarrow> size_t list \<Rightarrow> addr option list" where
  "arena_allocs h [] = []"
| "arena_allocs h (b # bs) =
     fst (arena_alloc h b) # arena_allocs (snd (arena_alloc h b)) bs"

fun mem_stack_allocs :: "MemStack option \<Rightarrow> size_t list \<Rightarrow> addr option ret list" where
  "mem_stack_allocs h [] = []"
| "mem_stack_allocs h (b # bs) =
     fst (mem_stack_alloc h b) # mem_stack_allocs (snd (mem_stack_alloc h b)) bs"

datatype pool_op = PoolAlloc | PoolFree addr

fun pool_step :: "pool_t option \<Rightarrow> pool_op \<Rightarrow> fault + pool_t option" where
  "pool_step h PoolAlloc =
     (case pool_alloc h of Inl e \<Rightarrow> Inl e | Inr (r, p) \<Rightarrow> Inr (Some p))"
| "pool_step h (PoolFree chunk) = pool_free h chunk"

fun pool_run :: "pool_t option \<Rightarrow> pool_op list \<Rightarrow> fault + pool_t option" where
  "pool_run h [] = Inr h"
| "pool_run h (x # xs) =
     (case pool_step h x of Inl e \<Rightarrow> Inl e | Inr h' \<Rightarrow> pool_run h' xs)"

section \<open>Notions the properties are stated with\<close>

text \<open>The calls that reach the division of \<open>pool_free\<close>: a free of a non-null pointer.\<close>

fun frees_chunk :: "pool_op \<Rightarrow> bool" where
  "frees_chunk PoolAlloc = False"
| "frees_chunk (PoolFree chunk) = (chunk \<noteq> 0)"

text \<open>
  The bytes of the buffer a returned pointer \<open>p\<close> of a request of \<open>len\<close> bytes stands
  for, as offsets from the buffer base.
\<close>

definition region :: "addr \<Rightarrow> addr \<Rightarrow> size_t \<Rightarrow> nat set" where
  "region base p len = {unat (p - base) ..< unat (p - base) + unat len}"

text \<open>The ledger bit of chunk \<open>j\<close>: bit \<open>j mod 8\<close> of byte \<open>j div 8\<close>.\<close>

definition chunk_used :: "8 word list \<Rightarrow> nat \<Rightarrow> bool" where
  "chunk_used l j = bit (l ! (j div 8)) (j mod 8)"

text \<open>
  A pool handle as \<open>pool_init\<close> leaves it: both pointers set, and a ledger with a bit
  for each of the \<open>n_chunks\<close> chunks.
\<close>

definition pool_valid :: "pool_t \<Rightarrow> bool" where
  "pool_valid p =
     (pool_data p \<noteq> 0 \<and> pool_ledger p \<noteq> 0 \<and>
      unat (n_chunks p) \<le> 8 * length (ledger_bytes p))"

section \<open>Unsigned arithmetic without wrap-around\<close>

lemma uint_sub_no_wrap:
  fixes x y :: size_t
  shows "y \<le> x \<Longrightarrow> uint (x - y) = uint x - uint y"
  by (simp add: word_le_def uint_sub_lem [symmetric])

lemma uint_add_no_wrap:
  fixes x y z :: size_t
  assumes "uint x + uint y \<le> uint z"
  shows "uint (x + y) = uint x + uint y"
proof -
  have "uint z < 2 ^ LENGTH(64)"
    by (rule uint_lt2p)
  with assms have "uint x + uint y < 2 ^ LENGTH(64)"
    by linarith
  then show ?thesis
    by (simp only: uint_add_lem)
qed

text \<open>
  The pointers the allocators return are the buffer base plus an offset into the
  buffer.  For a buffer at a non-null base that ends below the top of the address space
  such a pointer is not the null address: a result \<open>Some p\<close> never stands for \<open>NULL\<close>.
\<close>

lemma buffer_pointer_not_null:
  fixes base off :: addr
  assumes "base \<noteq> 0" and "unat base + unat off < 2 ^ 64"
  shows "base + off \<noteq> 0"
proof -
  from assms(2) have "unat base + unat off < 2 ^ LENGTH(64)"
    by simp
  then have "unat (base + off) = unat base + unat off"
    by (simp only: unat_add_lem)
  moreover from assms(1) have "0 < unat base"
    by (simp add: unat_gt_0)
  ultimately have "0 < unat (base + off)"
    by simp
  then show ?thesis
    by (simp add: unat_gt_0)
qed

section \<open>The arena's bounds check\<close>

text \<open>
  C4.  For an arena with \<open>size \<le> capacity\<close> and any request \<open>bytes\<close>, \<open>arena_alloc\<close>
  returns \<open>NULL\<close> exactly when, over the integers, \<open>bytes > capacity\<close> or
  \<open>size > capacity - bytes\<close>.  Whenever the first test is false, the \<open>size_t\<close>
  difference \<open>capacity - bytes\<close> the second test computes is the integer difference:
  it does not wrap.  A failed call leaves the arena as it was; a successful one returns
  \<open>data + size\<close> and advances \<open>size\<close> by \<open>bytes\<close>, again without wrap-around.
\<close>

theorem arena_alloc_bounds:
  assumes inv: "arena_size a \<le> arena_capacity a"
  shows "(fst (arena_alloc (Some a) bytes) = None \<longleftrightarrow>
            (uint bytes > uint (arena_capacity a) \<or>
             uint (arena_size a) > uint (arena_capacity a) - uint bytes)) \<and>
         (\<not> bytes > arena_capacity a \<longrightarrow>
            uint (arena_capacity a - bytes) = uint (arena_capacity a) - uint bytes) \<and>
         (fst (arena_alloc (Some a) bytes) = None \<longrightarrow>
            snd (arena_alloc (Some a) bytes) = Some a) \<and>
         (fst (arena_alloc (Some a) bytes) \<noteq> None \<longrightarrow>
            arena_alloc (Some a) bytes =
              (Some (arena_data a + arena_size a),
               Some (a\<lparr>arena_size := arena_size a + bytes\<rparr>)) \<and>
            uint (arena_size a + bytes) = uint (arena_size a) + uint bytes)"
proof (cases "bytes > arena_capacity a")
  case True
  then show ?thesis
    by (simp add: arena_alloc_def word_less_def)
next
  case False
  then have sub: "uint (arena_capacity a - bytes) = uint (arena_capacity a) - uint bytes"
    by (simp add: uint_sub_no_wrap not_less)
  show ?thesis
  proof (cases "arena_size a > arena_capacity a - bytes")
    case True
    with False sub show ?thesis
      by (simp add: arena_alloc_def word_less_def)
  next
    case False
    with sub have "uint (arena_size a) + uint bytes \<le> uint (arena_capacity a)"
      by (simp add: word_less_def)
    then have "uint (arena_size a + bytes) = uint (arena_size a) + uint bytes"
      by (rule uint_add_no_wrap)
    with False \<open>\<not> bytes > arena_capacity a\<close> sub show ?thesis
      by (simp add: arena_alloc_def word_less_def)
  qed
qed

theorem arena_alloc_bounds_witness:
  "arena_size \<lparr>arena_data = 4096, arena_size = 3, arena_capacity = 10\<rparr> \<le> arena_capacity \<lparr>arena_data = 4096, arena_size = 3, arena_capacity = 10\<rparr> \<and>
   arena_alloc (Some \<lparr>arena_data = 4096, arena_size = 3, arena_capacity = 10\<rparr>) 7 =
     (Some 4099, Some \<lparr>arena_data = 4096, arena_size = 10, arena_capacity = 10\<rparr>) \<and>
   arena_alloc (Some \<lparr>arena_data = 4096, arena_size = 3, arena_capacity = 10\<rparr>) 8 = (None, Some \<lparr>arena_data = 4096, arena_size = 3, arena_capacity = 10\<rparr>) \<and>
   arena_alloc (Some \<lparr>arena_data = 4096, arena_size = 3, arena_capacity = 10\<rparr>) 18446744073709551615 = (None, Some \<lparr>arena_data = 4096, arena_size = 3, arena_capacity = 10\<rparr>)"
  using arena_alloc_bounds [of "\<lparr>arena_data = 4096, arena_size = 3, arena_capacity = 10\<rparr>" 7] arena_alloc_bounds [of "\<lparr>arena_data = 4096, arena_size = 3, arena_capacity = 10\<rparr>" 8]
    arena_alloc_bounds [of "\<lparr>arena_data = 4096, arena_size = 3, arena_capacity = 10\<rparr>" 18446744073709551615]
  by (simp add: arena_alloc_def)

section \<open>Zero-byte requests\<close>

text \<open>
  C10.  On an arena or a stack allocator with \<open>size \<le> capacity\<close>, a request of zero
  bytes succeeds: it returns the pointer \<open>data + size\<close> and leaves the allocator as it
  was, also when \<open>size = capacity\<close> and when the capacity is zero.
\<close>

theorem zero_byte_alloc:
  "(arena_size a \<le> arena_capacity a \<longrightarrow>
      arena_alloc (Some a) 0 = (Some (arena_data a + arena_size a), Some a)) \<and>
   (stack_size s \<le> stack_capacity s \<longrightarrow>
      mem_stack_alloc (Some s) 0 = (Ret (Some (stack_data s + stack_size s)), Some s))"
  by (auto simp add: arena_alloc_def mem_stack_alloc_def)

theorem zero_byte_alloc_witness:
  "arena_init 1 4096 0 = Some \<lparr>arena_data = 4096, arena_size = 0, arena_capacity = 0\<rparr> \<and>
   arena_alloc (Some \<lparr>arena_data = 4096, arena_size = 0, arena_capacity = 0\<rparr>) 0 =
     (Some 4096, Some \<lparr>arena_data = 4096, arena_size = 0, arena_capacity = 0\<rparr>) \<and>
   mem_stack_alloc (Some \<lparr>stack_data = 4096, stack_size = 8, stack_capacity = 8\<rparr>) 0 =
     (Ret (Some 4104), Some \<lparr>stack_data = 4096, stack_size = 8, stack_capacity = 8\<rparr>)"
  using zero_byte_alloc [of "\<lparr>arena_data = 4096, arena_size = 0, arena_capacity = 0\<rparr>"
      "\<lparr>stack_data = 4096, stack_size = 8, stack_capacity = 8\<rparr>"]
  by (simp add: arena_init_def)

section \<open>The stack allocator's pop and bounds check\<close>

text \<open>
  What \<open>mem_stack_pop\<close> does to the struct: with \<open>bytes \<le> size\<close> it lowers \<open>size\<close>
  by exactly \<open>bytes\<close>, the other fields untouched; with \<open>bytes > size\<close> it leaves
  the whole struct as it was.
\<close>

lemma mem_stack_pop_state:
  "(bytes \<le> stack_size s \<longrightarrow>
      snd (mem_stack_pop (Some s) bytes) = Some (s\<lparr>stack_size := stack_size s - bytes\<rparr>) \<and>
      uint (stack_size s - bytes) = uint (stack_size s) - uint bytes) \<and>
   (bytes > stack_size s \<longrightarrow> snd (mem_stack_pop (Some s) bytes) = Some s)"
  by (auto simp add: mem_stack_pop_def uint_sub_no_wrap)

text \<open>
  C5.  The claim: \<open>mem_stack_pop\<close> with \<open>bytes \<le> size\<close> lowers \<open>size\<close> by \<open>bytes\<close>
  and returns 1, and with \<open>bytes > size\<close> returns 0 and changes nothing.  The struct
  is treated so, but neither 1 nor 0 is returned: on a stack with \<open>size = 8\<close>, popping
  5 bytes leaves \<open>size = 3\<close> and popping 9 leaves \<open>size = 8\<close>, and both calls hand no
  value to the caller.
\<close>

theorem mem_stack_pop_no_value:
  "mem_stack_pop (Some \<lparr>stack_data = 4096, stack_size = 8, stack_capacity = 16\<rparr>) 5 =
     (NoValue, Some \<lparr>stack_data = 4096, stack_size = 3, stack_capacity = 16\<rparr>) \<and>
   mem_stack_pop (Some \<lparr>stack_data = 4096, stack_size = 8, stack_capacity = 16\<rparr>) 9 =
     (NoValue, Some \<lparr>stack_data = 4096, stack_size = 8, stack_capacity = 16\<rparr>)"
  by (simp add: mem_stack_pop_def)

text \<open>
  What the bounds check of \<open>mem_stack_alloc\<close> decides: the request is refused exactly
  when the sum reduced modulo \<open>2 ^ 64\<close> exceeds the capacity.
\<close>

lemma mem_stack_alloc_refuses_iff:
  "fst (mem_stack_alloc (Some s) bytes) = Ret None \<longleftrightarrow>
     (uint (stack_size s) + uint bytes) mod 2 ^ 64 > uint (stack_capacity s)"
  by (simp add: mem_stack_alloc_def word_less_def uint_word_ariths)

text \<open>
  C1.  The claim: \<open>mem_stack_alloc\<close> fails exactly when \<open>size + bytes > capacity\<close>, the
  sum taken so that a huge \<open>bytes\<close> cannot wrap it.  The code adds in \<open>size_t\<close>: on a
  fresh stack of capacity 10, after one byte is allocated, a request of \<open>2 ^ 64 - 1\<close>
  bytes has the true sum \<open>2 ^ 64 > 10\<close> and yet succeeds, returning \<open>data + 1\<close> and
  setting \<open>size\<close> back to 0.
\<close>

theorem mem_stack_alloc_sum_wraps:
  "mem_stack_init 1 4096 10 =
     Some \<lparr>stack_data = 4096, stack_size = 0, stack_capacity = 10\<rparr> \<and>
   mem_stack_alloc (Some \<lparr>stack_data = 4096, stack_size = 0, stack_capacity = 10\<rparr>) 1 =
     (Ret (Some 4096), Some \<lparr>stack_data = 4096, stack_size = 1, stack_capacity = 10\<rparr>) \<and>
   uint (1 :: size_t) + uint (18446744073709551615 :: size_t) > uint (10 :: size_t) \<and>
   mem_stack_alloc (Some \<lparr>stack_data = 4096, stack_size = 1, stack_capacity = 10\<rparr>)
       18446744073709551615 =
     (Ret (Some 4097), Some \<lparr>stack_data = 4096, stack_size = 0, stack_capacity = 10\<rparr>)"
  by (simp add: mem_stack_init_def mem_stack_alloc_def)

section \<open>Null handles\<close>

text \<open>
  The calls that test their handle: on a null handle they change nothing.  The two
  stack calls leave through \<open>return;\<close> and hand back no value.
\<close>

lemma null_handle_tested:
  "arena_alloc None bytes = (None, None)"
  "arena_reset None = None"
  "pool_free None chunk = Inr None"
  "mem_stack_alloc None bytes = (NoValue, None)"
  "mem_stack_pop None bytes = (NoValue, None)"
  by (simp_all add: arena_alloc_def arena_reset_def pool_free_def mem_stack_alloc_def
      mem_stack_pop_def)

text \<open>
  C3.  The claim: every public call on a null handle is a no-op, a boolean failure or an
  absent result, and never reads through the handle.  \<open>pool_alloc\<close> has no null test:
  on a null handle its first action is the read of \<open>pool->n_chunks\<close>.
\<close>

theorem pool_alloc_null_handle:
  "pool_alloc None = Inl NullDeref"
  by (simp add: pool_alloc_def)

section \<open>The cursor stays within the capacity\<close>

lemma arena_step_keeps_bound:
  assumes "arena_size a \<le> arena_capacity a"
  shows "\<exists>a'. arena_step (Some a) x = Some a' \<and> arena_size a' \<le> arena_capacity a' \<and>
           arena_capacity a' = arena_capacity a \<and> arena_data a' = arena_data a"
proof (cases x)
  case (ArenaAlloc bytes)
  show ?thesis
  proof (cases "bytes > arena_capacity a \<or> arena_size a > arena_capacity a - bytes")
    case True
    with assms ArenaAlloc show ?thesis
      by (auto simp add: arena_alloc_def)
  next
    case False
    then have le: "bytes \<le> arena_capacity a" and fit: "arena_size a \<le> arena_capacity a - bytes"
      by (simp_all add: not_less)
    from le have "uint (arena_capacity a - bytes) = uint (arena_capacity a) - uint bytes"
      by (rule uint_sub_no_wrap)
    with fit have sum: "uint (arena_size a) + uint bytes \<le> uint (arena_capacity a)"
      by (simp add: word_le_def)
    then have "uint (arena_size a + bytes) = uint (arena_size a) + uint bytes"
      by (rule uint_add_no_wrap)
    with sum have "arena_size a + bytes \<le> arena_capacity a"
      by (simp add: word_le_def)
    with False ArenaAlloc show ?thesis
      by (simp add: arena_alloc_def)
  qed
next
  case ArenaReset
  then show ?thesis
    by (simp add: arena_reset_def)
qed

lemma arena_run_keeps_bound:
  "arena_size a \<le> arena_capacity a \<Longrightarrow>
   \<exists>a'. foldl arena_step (Some a) xs = Some a' \<and> arena_size a' \<le> arena_capacity a' \<and>
     arena_capacity a' = arena_capacity a \<and> arena_data a' = arena_data a"
proof (induction xs arbitrary: a)
  case Nil
  then show ?case by simp
next
  case (Cons x xs)
  from arena_step_keeps_bound [OF Cons.prems, of x]
  obtain b where b: "arena_step (Some a) x = Some b" "arena_size b \<le> arena_capacity b"
    "arena_capacity b = arena_capacity a" "arena_data b = arena_data a"
    by blast
  from Cons.IH [OF b(2)] b show ?case
    by simp
qed

lemma stack_step_keeps_bound:
  assumes "stack_size s \<le> stack_capacity s"
  shows "\<exists>s'. stack_step (Some s) x = Some s' \<and> stack_size s' \<le> stack_capacity s' \<and>
           stack_capacity s' = stack_capacity s \<and> stack_data s' = stack_data s"
proof (cases x)
  case (StackAlloc bytes)
  with assms show ?thesis
    by (simp add: mem_stack_alloc_def not_less)
next
  case (StackPop bytes)
  show ?thesis
  proof (cases "bytes > stack_size s")
    case True
    with assms StackPop show ?thesis
      by (simp add: mem_stack_pop_def)
  next
    case False
    then have "uint (stack_size s - bytes) = uint (stack_size s) - uint bytes"
      by (simp add: uint_sub_no_wrap not_less)
    moreover have "0 \<le> uint bytes"
      by simp
    ultimately have "stack_size s - bytes \<le> stack_capacity s"
      using assms unfolding word_le_def by linarith
    with False StackPop show ?thesis
      by (simp add: mem_stack_pop_def)
  qed
qed

lemma stack_run_keeps_bound:
  "stack_size s \<le> stack_capacity s \<Longrightarrow>
   \<exists>s'. foldl stack_step (Some s) xs = Some s' \<and> stack_size s' \<le> stack_capacity s' \<and>
     stack_capacity s' = stack_capacity s \<and> stack_data s' = stack_data s"
proof (induction xs arbitrary: s)
  case Nil
  then show ?case by simp
next
  case (Cons x xs)
  from stack_step_keeps_bound [OF Cons.prems, of x]
  obtain b where b: "stack_step (Some s) x = Some b" "stack_size b \<le> stack_capacity b"
    "stack_capacity b = stack_capacity s" "stack_data b = stack_data s"
    by blast
  from Cons.IH [OF b(2)] b show ?case
    by simp
qed

text \<open>
  C8.  From the state \<open>arena_init\<close> or \<open>mem_stack_init\<close> leaves, every list of calls
  (allocate and reset on the arena, allocate and pop on the stack) ends in a state with
  \<open>size \<le> capacity\<close>, the capacity being the one given to init; the empty list is
  the initial state.  For the stack this holds of the \<open>size_t\<close> values also when the
  sum in \<open>mem_stack_alloc\<close> wraps: the value stored is the sum that was compared.
\<close>

theorem cursor_invariant:
  "(arena_init hp buf c = Some a \<longrightarrow>
      (\<exists>a'. foldl arena_step (Some a) xs = Some a' \<and>
         arena_size a' \<le> arena_capacity a' \<and> arena_capacity a' = c)) \<and>
   (mem_stack_init hp' buf' c' = Some s \<longrightarrow>
      (\<exists>s'. foldl stack_step (Some s) ys = Some s' \<and>
         stack_size s' \<le> stack_capacity s' \<and> stack_capacity s' = c'))"
proof (intro conjI impI)
  assume "arena_init hp buf c = Some a"
  then have "arena_size a \<le> arena_capacity a" and "arena_capacity a = c"
    by (auto simp add: arena_init_def split: if_splits)
  with arena_run_keeps_bound [of a xs]
  show "\<exists>a'. foldl arena_step (Some a) xs = Some a' \<and>
         arena_size a' \<le> arena_capacity a' \<and> arena_capacity a' = c"
    by auto
next
  assume "mem_stack_init hp' buf' c' = Some s"
  then have "stack_size s \<le> stack_capacity s" and "stack_capacity s = c'"
    by (auto simp add: mem_stack_init_def split: if_splits)
  with stack_run_keeps_bound [of s ys]
  show "\<exists>s'. foldl stack_step (Some s) ys = Some s' \<and>
         stack_size s' \<le> stack_capacity s' \<and> stack_capacity s' = c'"
    by auto
qed

theorem cursor_invariant_witness:
  "arena_init 1 4096 10 = Some \<lparr>arena_data = 4096, arena_size = 0, arena_capacity = 10\<rparr> \<and>
   foldl arena_step (Some \<lparr>arena_data = 4096, arena_size = 0, arena_capacity = 10\<rparr>)
       [ArenaAlloc 4, ArenaAlloc 7, ArenaAlloc 6, ArenaReset, ArenaAlloc 10, ArenaAlloc 18446744073709551615] =
     Some \<lparr>arena_data = 4096, arena_size = 10, arena_capacity = 10\<rparr> \<and>
   mem_stack_init 1 4096 10 = Some \<lparr>stack_data = 4096, stack_size = 0, stack_capacity = 10\<rparr> \<and>
   foldl stack_step (Some \<lparr>stack_data = 4096, stack_size = 0, stack_capacity = 10\<rparr>)
       [StackAlloc 4, StackPop 5, StackAlloc 5, StackAlloc 18446744073709551615, StackPop 3] =
     Some \<lparr>stack_data = 4096, stack_size = 5, stack_capacity = 10\<rparr>"
  using cursor_invariant [of 1 4096 10 "\<lparr>arena_data = 4096, arena_size = 0, arena_capacity = 10\<rparr>"
      "[ArenaAlloc 4, ArenaAlloc 7, ArenaAlloc 6, ArenaReset, ArenaAlloc 10, ArenaAlloc 18446744073709551615]"
      1 4096 10 "\<lparr>stack_data = 4096, stack_size = 0, stack_capacity = 10\<rparr>"
      "[StackAlloc 4, StackPop 5, StackAlloc 5, StackAlloc 18446744073709551615, StackPop 3]"]
  by (simp add: arena_init_def mem_stack_init_def arena_alloc_def arena_reset_def
      mem_stack_alloc_def mem_stack_pop_def)


section \<open>Degenerate pools\<close>

lemma pool_alloc_no_chunks:
  "n_chunks p = 0 \<Longrightarrow> pool_alloc (Some p) = Inr (None, p)"
  by (simp add: pool_alloc_def pool_alloc_loop.simps)

text \<open>
  A pool without chunks, both pointers set: a call leaves it as it was, unless it is a
  free of a non-null pointer on a pool with \<open>chunk_size = 0\<close>, which divides by zero.
\<close>

lemma pool_step_no_chunks:
  assumes "n_chunks p = 0" and "pool_data p \<noteq> 0" and "pool_ledger p \<noteq> 0"
  shows "pool_step (Some p) x =
           (if chunk_size p = 0 \<and> frees_chunk x then Inl DivByZero else Inr (Some p))"
proof (cases x)
  case PoolAlloc
  with assms show ?thesis
    by (simp add: pool_alloc_no_chunks)
next
  case (PoolFree chunk)
  with assms show ?thesis
    by (simp add: pool_free_def)
qed

lemma pool_run_no_chunks:
  assumes "n_chunks p = 0" and "pool_data p \<noteq> 0" and "pool_ledger p \<noteq> 0"
  shows "pool_run (Some p) xs =
           (if chunk_size p = 0 \<and> list_ex frees_chunk xs then Inl DivByZero else Inr (Some p))"
proof (induction xs)
  case Nil
  then show ?case by simp
next
  case (Cons x xs)
  then show ?case
    by (simp add: pool_step_no_chunks [OF assms])
qed

text \<open>
  C2.  The claim: a pool made with \<open>chunk_size = 0\<close> or \<open>n_chunks = 0\<close> is
  permanently empty.  With \<open>n_chunks = 0\<close> it is: \<open>pool_alloc\<close> returns \<open>NULL\<close>, and
  every list of \<open>pool_alloc\<close> and \<open>pool_free\<close> calls runs to its end and leaves the
  pool as \<open>pool_init\<close> made it, so that \<open>pool_alloc\<close> fails after it as before.  One
  kind of run does not get that far: with \<open>chunk_size = 0\<close> as well, a \<open>pool_free\<close> of
  a non-null pointer divides by zero.
\<close>

theorem pool_zero_count_empty:
  assumes "pool_init hp dp lp csize 0 = Some p"
  shows "pool_alloc (Some p) = Inr (None, p) \<and>
     (csize \<noteq> 0 \<or> \<not> list_ex frees_chunk xs \<longrightarrow> pool_run (Some p) xs = Inr (Some p)) \<and>
     (csize = 0 \<and> list_ex frees_chunk xs \<longrightarrow> pool_run (Some p) xs = Inl DivByZero)"
proof -
  from assms have p: "n_chunks p = 0" "pool_data p \<noteq> 0" "pool_ledger p \<noteq> 0"
    and c: "chunk_size p = csize"
    by (auto simp add: pool_init_def split: if_splits)
  from p(1) have "pool_alloc (Some p) = Inr (None, p)"
    by (rule pool_alloc_no_chunks)
  with pool_run_no_chunks [OF p, of xs] c show ?thesis
    by auto
qed

theorem pool_zero_count_empty_witness:
  "pool_init 1 4096 8192 16 0 = Some \<lparr>chunk_size = 16, n_chunks = 0, pool_data = 4096, pool_ledger = 8192, ledger_bytes = []\<rparr> \<and>
   pool_alloc (Some \<lparr>chunk_size = 16, n_chunks = 0, pool_data = 4096, pool_ledger = 8192, ledger_bytes = []\<rparr>) = Inr (None, \<lparr>chunk_size = 16, n_chunks = 0, pool_data = 4096, pool_ledger = 8192, ledger_bytes = []\<rparr>) \<and>
   pool_run (Some \<lparr>chunk_size = 16, n_chunks = 0, pool_data = 4096, pool_ledger = 8192, ledger_bytes = []\<rparr>) [PoolAlloc, PoolFree 4096, PoolFree 0, PoolAlloc, PoolFree 4112] =
     Inr (Some \<lparr>chunk_size = 16, n_chunks = 0, pool_data = 4096, pool_ledger = 8192, ledger_bytes = []\<rparr>) \<and>
   pool_init 1 4096 8192 0 0 = Some \<lparr>chunk_size = 0, n_chunks = 0, pool_data = 4096, pool_ledger = 8192, ledger_bytes = []\<rparr> \<and>
   pool_alloc (Some \<lparr>chunk_size = 0, n_chunks = 0, pool_data = 4096, pool_ledger = 8192, ledger_bytes = []\<rparr>) = Inr (None, \<lparr>chunk_size = 0, n_chunks = 0, pool_data = 4096, pool_ledger = 8192, ledger_bytes = []\<rparr>) \<and>
   pool_run (Some \<lparr>chunk_size = 0, n_chunks = 0, pool_data = 4096, pool_ledger = 8192, ledger_bytes = []\<rparr>) [PoolAlloc, PoolFree 0, PoolAlloc] = Inr (Some \<lparr>chunk_size = 0, n_chunks = 0, pool_data = 4096, pool_ledger = 8192, ledger_bytes = []\<rparr>) \<and>
   pool_run (Some \<lparr>chunk_size = 0, n_chunks = 0, pool_data = 4096, pool_ledger = 8192, ledger_bytes = []\<rparr>) [PoolAlloc, PoolFree 4096, PoolAlloc] = Inl DivByZero"
proof -
  have i16: "pool_init 1 4096 8192 16 0 = Some \<lparr>chunk_size = 16, n_chunks = 0, pool_data = 4096, pool_ledger = 8192, ledger_bytes = []\<rparr>"
    and i0: "pool_init 1 4096 8192 0 0 = Some \<lparr>chunk_size = 0, n_chunks = 0, pool_data = 4096, pool_ledger = 8192, ledger_bytes = []\<rparr>"
    by (simp_all add: pool_init_def)
  from pool_zero_count_empty [OF i16, of "[PoolAlloc, PoolFree 4096, PoolFree 0, PoolAlloc, PoolFree 4112]"]
    pool_zero_count_empty [OF i0, of "[PoolAlloc, PoolFree 0, PoolAlloc]"]
    pool_zero_count_empty [OF i0, of "[PoolAlloc, PoolFree 4096, PoolAlloc]"]
    i16 i0
  show ?thesis
    by (simp del: pool_run.simps)
qed

text \<open>
  With \<open>chunk_size = 0\<close> and \<open>n_chunks = 1\<close> the pool is not empty: the first
  \<open>pool_alloc\<close> finds bit 0 clear, sets it and returns the buffer base.
\<close>

theorem pool_zero_chunk_size_allocates:
  "pool_init 1 4096 8192 0 1 =
     Some \<lparr>chunk_size = 0, n_chunks = 1, pool_data = 4096, pool_ledger = 8192, ledger_bytes = [0]\<rparr> \<and>
   pool_alloc (Some \<lparr>chunk_size = 0, n_chunks = 1, pool_data = 4096, pool_ledger = 8192, ledger_bytes = [0]\<rparr>) =
     Inr (Some 4096, \<lparr>chunk_size = 0, n_chunks = 1, pool_data = 4096, pool_ledger = 8192, ledger_bytes = [1]\<rparr>)"
  by (simp add: pool_init_def pool_alloc_def pool_alloc_loop.simps CHECK_BIT_def SET_BIT_def ledger_mask_def)


section \<open>Allocations within the capacity\<close>

lemma unat_add_no_wrap:
  fixes x y z :: size_t
  assumes "unat x + unat y \<le> unat z"
  shows "unat (x + y) = unat x + unat y"
proof -
  have "unat z < 2 ^ LENGTH(64)"
    by (rule unsigned_less)
  with assms have "unat x + unat y < 2 ^ LENGTH(64)"
    by linarith
  then show ?thesis
    by (simp only: unat_add_lem)
qed

lemma arena_alloc_fits:
  assumes "unat (arena_size a) + unat b \<le> unat (arena_capacity a)"
  shows "arena_alloc (Some a) b =
           (Some (arena_data a + arena_size a), Some (a\<lparr>arena_size := arena_size a + b\<rparr>))"
proof -
  from assms have le: "b \<le> arena_capacity a"
    by (simp add: word_le_nat_alt)
  then have "unat (arena_capacity a - b) = unat (arena_capacity a) - unat b"
    by (rule unat_sub)
  with assms have "arena_size a \<le> arena_capacity a - b"
    by (simp add: word_le_nat_alt)
  with le show ?thesis
    by (simp add: arena_alloc_def not_less [symmetric])
qed

lemma mem_stack_alloc_fits:
  assumes "unat (stack_size s) + unat b \<le> unat (stack_capacity s)"
  shows "mem_stack_alloc (Some s) b =
           (Ret (Some (stack_data s + stack_size s)), Some (s\<lparr>stack_size := stack_size s + b\<rparr>))"
proof -
  from assms have "unat (stack_size s + b) = unat (stack_size s) + unat b"
    by (rule unat_add_no_wrap)
  with assms have "stack_size s + b \<le> stack_capacity s"
    by (simp add: word_le_nat_alt)
  then show ?thesis
    by (simp add: mem_stack_alloc_def not_less [symmetric])
qed

lemma arena_allocs_fit:
  "unat (arena_size a) + sum_list (map unat bs) \<le> unat (arena_capacity a) \<Longrightarrow>
   arena_allocs (Some a) bs =
     map (\<lambda>i. Some (arena_data a + arena_size a + of_nat (sum_list (map unat (take i bs)))))
       [0..<length bs]"
proof (induction bs arbitrary: a)
  case Nil
  then show ?case by simp
next
  case (Cons b bs)
  let ?a = "a\<lparr>arena_size := arena_size a + b\<rparr>"
  from Cons.prems have fit: "unat (arena_size a) + unat b \<le> unat (arena_capacity a)"
    by simp
  then have step: "arena_alloc (Some a) b = (Some (arena_data a + arena_size a), Some ?a)"
    by (rule arena_alloc_fits)
  from fit have "unat (arena_size a + b) = unat (arena_size a) + unat b"
    by (rule unat_add_no_wrap)
  with Cons.prems have "unat (arena_size ?a) + sum_list (map unat bs) \<le> unat (arena_capacity ?a)"
    by simp
  from Cons.IH [OF this] step show ?case
    by (simp add: map_upt_Suc add.assoc del: upt_Suc)
qed

lemma mem_stack_allocs_fit:
  "unat (stack_size s) + sum_list (map unat bs) \<le> unat (stack_capacity s) \<Longrightarrow>
   mem_stack_allocs (Some s) bs =
     map (\<lambda>i. Ret (Some (stack_data s + stack_size s + of_nat (sum_list (map unat (take i bs))))))
       [0..<length bs]"
proof (induction bs arbitrary: s)
  case Nil
  then show ?case by simp
next
  case (Cons b bs)
  let ?s = "s\<lparr>stack_size := stack_size s + b\<rparr>"
  from Cons.prems have fit: "unat (stack_size s) + unat b \<le> unat (stack_capacity s)"
    by simp
  then have step: "mem_stack_alloc (Some s) b = (Ret (Some (stack_data s + stack_size s)), Some ?s)"
    by (rule mem_stack_alloc_fits)
  from fit have "unat (stack_size s + b) = unat (stack_size s) + unat b"
    by (rule unat_add_no_wrap)
  with Cons.prems have "unat (stack_size ?s) + sum_list (map unat bs) \<le> unat (stack_capacity ?s)"
    by simp
  from Cons.IH [OF this] step show ?case
    by (simp add: map_upt_Suc add.assoc del: upt_Suc)
qed

text \<open>Prefix sums of the request sizes.\<close>

lemma prefix_sum_Suc:
  fixes ns :: "nat list"
  shows "i < length ns \<Longrightarrow> sum_list (take (Suc i) ns) = sum_list (take i ns) + ns ! i"
  by (simp add: take_Suc_conv_app_nth)

lemma prefix_sum_mono:
  fixes ns :: "nat list"
  assumes "i \<le> j"
  shows "sum_list (take i ns) \<le> sum_list (take j ns)"
proof -
  from assms have "take j ns = take i ns @ take (j - i) (drop i ns)"
    using take_add [of i "j - i" ns] by simp
  then have "sum_list (take j ns) = sum_list (take i ns) + sum_list (take (j - i) (drop i ns))"
    by simp
  then show ?thesis
    by simp
qed

lemma prefix_sum_le_total:
  fixes ns :: "nat list"
  shows "sum_list (take i ns) \<le> sum_list ns"
  using prefix_sum_mono [of i "max i (length ns)" ns] by simp

lemma region_prefix:
  assumes tot: "sum_list (map unat bs) \<le> unat (c :: size_t)" and i: "i < length bs"
  shows "region base (base + of_nat (sum_list (map unat (take i bs)))) (bs ! i) =
           {sum_list (take i (map unat bs)) ..< sum_list (take (Suc i) (map unat bs))}"
proof -
  let ?k = "sum_list (take i (map unat bs))"
  have "?k \<le> sum_list (map unat bs)"
    by (rule prefix_sum_le_total)
  also note tot
  finally have "unat (of_nat ?k :: size_t) = ?k"
    by (rule le_unat_uoi)
  moreover from i have "sum_list (take (Suc i) (map unat bs)) = ?k + unat (bs ! i)"
    by (simp add: prefix_sum_Suc)
  ultimately show ?thesis
    by (simp add: region_def take_map)
qed

lemma regions_apart:
  assumes tot: "sum_list (map unat bs) \<le> unat (c :: size_t)"
    and i: "i < length bs" and j: "j < length bs" and ne: "i \<noteq> j"
  shows "region base (base + of_nat (sum_list (map unat (take i bs)))) (bs ! i) \<inter>
         region base (base + of_nat (sum_list (map unat (take j bs)))) (bs ! j) = {}"
proof -
  let ?pre = "\<lambda>k. sum_list (take k (map unat bs))"
  have "?pre (Suc i) \<le> ?pre j \<or> ?pre (Suc j) \<le> ?pre i"
  proof (cases "i < j")
    case True
    then have "?pre (Suc i) \<le> ?pre j"
      by (intro prefix_sum_mono) simp
    then show ?thesis ..
  next
    case False
    with ne have "Suc j \<le> i" by simp
    then have "?pre (Suc j) \<le> ?pre i"
      by (rule prefix_sum_mono)
    then show ?thesis ..
  qed
  then show ?thesis
    unfolding region_prefix [OF tot i] region_prefix [OF tot j] by auto
qed

lemma region_inside:
  assumes tot: "sum_list (map unat bs) \<le> unat (c :: size_t)" and i: "i < length bs"
  shows "region base (base + of_nat (sum_list (map unat (take i bs)))) (bs ! i) \<subseteq> {0..<unat c}"
proof -
  have "sum_list (take (Suc i) (map unat bs)) \<le> sum_list (map unat bs)"
    by (rule prefix_sum_le_total)
  with tot show ?thesis
    unfolding region_prefix [OF tot i] by auto
qed

text \<open>
  C6.  On a fresh arena or stack allocator of capacity \<open>c\<close>, a list of requests whose
  sizes add up to at most \<open>c\<close> is served in full: every call returns a pointer, each
  returned region (the offset of the pointer from the buffer base, and the requested
  length) lies within \<open>[0, c)\<close>, and the regions of two different calls share no byte.
\<close>

theorem allocs_within_capacity:
  "(arena_init hp buf c = Some a \<and> sum_list (map unat bs) \<le> unat c \<longrightarrow>
      (\<exists>ps. arena_allocs (Some a) bs = map Some ps \<and> length ps = length bs \<and>
         (\<forall>i<length bs. region (arena_data a) (ps ! i) (bs ! i) \<subseteq> {0..<unat c}) \<and>
         (\<forall>i<length bs. \<forall>j<length bs. i \<noteq> j \<longrightarrow>
            region (arena_data a) (ps ! i) (bs ! i) \<inter>
            region (arena_data a) (ps ! j) (bs ! j) = {}))) \<and>
   (mem_stack_init hp' buf' c' = Some s \<and> sum_list (map unat bs') \<le> unat c' \<longrightarrow>
      (\<exists>ps. mem_stack_allocs (Some s) bs' = map (\<lambda>p. Ret (Some p)) ps \<and>
         length ps = length bs' \<and>
         (\<forall>i<length bs'. region (stack_data s) (ps ! i) (bs' ! i) \<subseteq> {0..<unat c'}) \<and>
         (\<forall>i<length bs'. \<forall>j<length bs'. i \<noteq> j \<longrightarrow>
            region (stack_data s) (ps ! i) (bs' ! i) \<inter>
            region (stack_data s) (ps ! j) (bs' ! j) = {})))"
proof (intro conjI impI; elim conjE)
  assume init: "arena_init hp buf c = Some a" and tot: "sum_list (map unat bs) \<le> unat c"
  let ?ps = "map (\<lambda>i. arena_data a + of_nat (sum_list (map unat (take i bs)))) [0..<length bs]"
  from init have a: "arena_size a = 0" "arena_capacity a = c"
    by (auto simp add: arena_init_def split: if_splits)
  with tot have "arena_allocs (Some a) bs = map Some ?ps"
    using arena_allocs_fit [of a bs] by (simp add: comp_def)
  moreover have "length ?ps = length bs"
    by simp
  moreover have "\<forall>i<length bs. region (arena_data a) (?ps ! i) (bs ! i) \<subseteq> {0..<unat c}"
    using region_inside [OF tot] by simp
  moreover have "\<forall>i<length bs. \<forall>j<length bs. i \<noteq> j \<longrightarrow>
      region (arena_data a) (?ps ! i) (bs ! i) \<inter> region (arena_data a) (?ps ! j) (bs ! j) = {}"
    using regions_apart [OF tot] by simp
  ultimately show "\<exists>ps. arena_allocs (Some a) bs = map Some ps \<and> length ps = length bs \<and>
         (\<forall>i<length bs. region (arena_data a) (ps ! i) (bs ! i) \<subseteq> {0..<unat c}) \<and>
         (\<forall>i<length bs. \<forall>j<length bs. i \<noteq> j \<longrightarrow>
            region (arena_data a) (ps ! i) (bs ! i) \<inter>
            region (arena_data a) (ps ! j) (bs ! j) = {})"
    by blast
next
  assume init: "mem_stack_init hp' buf' c' = Some s" and tot: "sum_list (map unat bs') \<le> unat c'"
  let ?ps = "map (\<lambda>i. stack_data s + of_nat (sum_list (map unat (take i bs')))) [0..<length bs']"
  from init have s: "stack_size s = 0" "stack_capacity s = c'"
    by (auto simp add: mem_stack_init_def split: if_splits)
  with tot have "mem_stack_allocs (Some s) bs' = map (\<lambda>p. Ret (Some p)) ?ps"
    using mem_stack_allocs_fit [of s bs'] by (simp add: comp_def)
  moreover have "length ?ps = length bs'"
    by simp
  moreover have "\<forall>i<length bs'. region (stack_data s) (?ps ! i) (bs' ! i) \<subseteq> {0..<unat c'}"
    using region_inside [OF tot] by simp
  moreover have "\<forall>i<length bs'. \<forall>j<length bs'. i \<noteq> j \<longrightarrow>
      region (stack_data s) (?ps ! i) (bs' ! i) \<inter> region (stack_data s) (?ps ! j) (bs' ! j) = {}"
    using regions_apart [OF tot] by simp
  ultimately show "\<exists>ps. mem_stack_allocs (Some s) bs' = map (\<lambda>p. Ret (Some p)) ps \<and>
         length ps = length bs' \<and>
         (\<forall>i<length bs'. region (stack_data s) (ps ! i) (bs' ! i) \<subseteq> {0..<unat c'}) \<and>
         (\<forall>i<length bs'. \<forall>j<length bs'. i \<noteq> j \<longrightarrow>
            region (stack_data s) (ps ! i) (bs' ! i) \<inter>
            region (stack_data s) (ps ! j) (bs' ! j) = {})"
    by blast
qed

theorem allocs_within_capacity_witness:
  "arena_init 1 4096 10 = Some \<lparr>arena_data = 4096, arena_size = 0, arena_capacity = 10\<rparr> \<and>
   sum_list (map unat [4, 0, 6 :: size_t]) \<le> unat (10 :: size_t) \<and>
   arena_allocs (Some \<lparr>arena_data = 4096, arena_size = 0, arena_capacity = 10\<rparr>) [4, 0, 6] =
     map Some [4096, 4100, 4100] \<and>
   region 4096 4096 4 = {0..<4} \<and> region 4096 4100 0 = {} \<and> region 4096 4100 6 = {4..<10} \<and>
   mem_stack_init 1 8192 8 = Some \<lparr>stack_data = 8192, stack_size = 0, stack_capacity = 8\<rparr> \<and>
   sum_list (map unat [3, 5 :: size_t]) \<le> unat (8 :: size_t) \<and>
   mem_stack_allocs (Some \<lparr>stack_data = 8192, stack_size = 0, stack_capacity = 8\<rparr>) [3, 5] =
     map (\<lambda>p. Ret (Some p)) [8192, 8195] \<and>
   region 8192 8192 3 = {0..<3} \<and> region 8192 8195 5 = {3..<8}"
  using allocs_within_capacity [of 1 4096 10
      "\<lparr>arena_data = 4096, arena_size = 0, arena_capacity = 10\<rparr>" "[4, 0, 6]"
      1 8192 8 "\<lparr>stack_data = 8192, stack_size = 0, stack_capacity = 8\<rparr>" "[3, 5]"]
  by (simp add: arena_init_def mem_stack_init_def arena_alloc_def mem_stack_alloc_def region_def)


section \<open>The ledger\<close>

text \<open>
  The three macros, on an index the ledger has a byte for, read and write the bit
  \<open>chunk_used\<close> names.
\<close>

lemma unat_div_8: "unat ((i :: size_t) div 8) = unat i div 8"
  by (simp add: unat_div)

lemma unat_mod_8: "unat ((i :: size_t) mod 8) = unat i mod 8"
  by (simp add: unat_mod)

lemma bit_ledger_mask: "bit (ledger_mask i) m \<longleftrightarrow> m = unat i mod 8"
proof -
  have "unat i mod 8 < 8"
    by simp
  then show ?thesis
    by (auto simp add: ledger_mask_def unat_mod_8 bit_exp_iff)
qed

lemma ledger_mask_test: "(b AND ledger_mask i \<noteq> 0) = bit b (unat i mod 8)"
  by (simp add: ledger_mask_def unat_mod_8 bit_iff_and_push_bit_not_eq_0)

lemma CHECK_BIT_in_range:
  "unat i < 8 * length l \<Longrightarrow> CHECK_BIT l i = Inr (chunk_used l (unat i))"
  by (simp add: CHECK_BIT_def chunk_used_def unat_div_8 ledger_mask_test)

lemma same_bit_position:
  fixes j k :: nat
  shows "j = k \<longleftrightarrow> j div 8 = k div 8 \<and> j mod 8 = k mod 8"
  by (metis div_mult_mod_eq)

lemma SET_BIT_in_range:
  assumes "unat i < 8 * length l"
  shows "\<exists>l'. SET_BIT l i = Inr l' \<and> length l' = length l \<and>
           (\<forall>j<8 * length l. chunk_used l' j = (j = unat i \<or> chunk_used l j))"
proof -
  let ?l' = "l[unat i div 8 := (l ! (unat i div 8)) OR ledger_mask i]"
  from assms have k: "unat i div 8 < length l"
    by simp
  then have "SET_BIT l i = Inr ?l'"
    by (simp add: SET_BIT_def unat_div_8)
  moreover have "chunk_used ?l' j = (j = unat i \<or> chunk_used l j)" if "j < 8 * length l" for j
  proof (cases "j div 8 = unat i div 8")
    case True
    with k show ?thesis
      by (auto simp add: chunk_used_def bit_or_iff bit_ledger_mask same_bit_position [of j])
  next
    case False
    then show ?thesis
      by (auto simp add: chunk_used_def)
  qed
  ultimately show ?thesis
    by simp
qed

lemma CLEAR_BIT_in_range:
  assumes "unat i < 8 * length l"
  shows "\<exists>l'. CLEAR_BIT l i = Inr l' \<and> length l' = length l \<and>
           (\<forall>j<8 * length l. chunk_used l' j = (j \<noteq> unat i \<and> chunk_used l j))"
proof -
  let ?l' = "l[unat i div 8 := (l ! (unat i div 8)) AND NOT (ledger_mask i)]"
  from assms have k: "unat i div 8 < length l"
    by simp
  then have "CLEAR_BIT l i = Inr ?l'"
    by (simp add: CLEAR_BIT_def unat_div_8)
  moreover have "chunk_used ?l' j = (j \<noteq> unat i \<and> chunk_used l j)" if "j < 8 * length l" for j
  proof (cases "j div 8 = unat i div 8")
    case True
    with k show ?thesis
      by (auto simp add: chunk_used_def bit_and_iff bit_not_iff bit_ledger_mask
          same_bit_position [of j] dest: bit_imp_possible_bit)
  next
    case False
    then show ?thesis
      by (auto simp add: chunk_used_def)
  qed
  ultimately show ?thesis
    by simp
qed

text \<open>\<open>pool_init\<close> leaves a valid handle, unless \<open>n_chunks + 7\<close> wraps.\<close>

lemma pool_init_valid:
  assumes "pool_init hp dp lp csize n = Some p" and "unat n \<le> 2 ^ 64 - 8"
  shows "pool_valid p"
proof -
  have "unat n + unat (7 :: size_t) < 2 ^ LENGTH(64)"
    using assms(2) by simp
  then have "unat (n + 7) = unat n + unat (7 :: size_t)"
    by (simp only: unat_add_lem)
  then have "unat ((n + 7) div 8) = (unat n + 7) div 8"
    by (simp add: unat_div)
  moreover have "unat n \<le> 8 * ((unat n + 7) div 8)"
    by presburger
  ultimately show ?thesis
    using assms(1) by (auto simp add: pool_init_def pool_valid_def split: if_splits)
qed

section \<open>Taking the first free chunk\<close>

lemma unat_succ_below:
  fixes i n :: size_t
  assumes "i < n"
  shows "unat (i + 1) = unat i + 1"
proof -
  from assms have "unat i + unat (1 :: size_t) \<le> unat n"
    by (simp add: word_less_nat_alt)
  then have "unat (i + 1) = unat i + unat (1 :: size_t)"
    by (rule unat_add_no_wrap)
  then show ?thesis
    by simp
qed

lemma pool_alloc_loop_none:
  "unat (n_chunks p) \<le> 8 * length (ledger_bytes p) \<Longrightarrow>
   (\<forall>j. unat i \<le> j \<and> j < unat (n_chunks p) \<longrightarrow> chunk_used (ledger_bytes p) j) \<Longrightarrow>
   pool_alloc_loop p i = Inr (None, p)"
proof (induction p i rule: pool_alloc_loop.induct)
  case (1 pool i)
  show ?case
  proof (cases "i < n_chunks pool")
    case False
    then show ?thesis
      by (simp add: pool_alloc_loop.simps [of pool i])
  next
    case True
    then have lt: "unat i < unat (n_chunks pool)"
      by (simp add: word_less_nat_alt)
    with "1.prems" have chk: "CHECK_BIT (ledger_bytes pool) i = Inr True"
      by (simp add: CHECK_BIT_in_range)
    from True have "unat (i + 1) = unat i + 1"
      by (rule unat_succ_below)
    with "1.prems" have "pool_alloc_loop pool (i + 1) = Inr (None, pool)"
      by (intro "1.IH" [OF True chk]) simp_all
    with True chk show ?thesis
      by (simp add: pool_alloc_loop.simps [of pool i])
  qed
qed

lemma pool_alloc_loop_found:
  "unat (n_chunks p) \<le> 8 * length (ledger_bytes p) \<Longrightarrow>
   unat i \<le> k \<Longrightarrow> k < unat (n_chunks p) \<Longrightarrow> \<not> chunk_used (ledger_bytes p) k \<Longrightarrow>
   (\<forall>j. unat i \<le> j \<and> j < k \<longrightarrow> chunk_used (ledger_bytes p) j) \<Longrightarrow>
   \<exists>l'. SET_BIT (ledger_bytes p) (of_nat k) = Inr l' \<and>
     pool_alloc_loop p i =
       Inr (Some (pool_data p + of_nat k * chunk_size p), p\<lparr>ledger_bytes := l'\<rparr>)"
proof (induction p i rule: pool_alloc_loop.induct)
  case (1 pool i)
  from "1.prems" have "unat i < unat (n_chunks pool)"
    by simp
  then have lt: "i < n_chunks pool"
    by (simp add: word_less_nat_alt)
  from "1.prems" have rng: "unat i < 8 * length (ledger_bytes pool)"
    by simp
  show ?case
  proof (cases "unat i = k")
    case True
    then have ik: "of_nat k = i"
      by auto
    from True "1.prems" have chk: "CHECK_BIT (ledger_bytes pool) i = Inr False"
      by (simp add: CHECK_BIT_in_range [OF rng])
    from SET_BIT_in_range [OF rng] obtain l' where "SET_BIT (ledger_bytes pool) i = Inr l'"
      by blast
    with lt chk ik show ?thesis
      by (simp add: pool_alloc_loop.simps [of pool i])
  next
    case False
    with "1.prems" have less: "unat i < k"
      by simp
    with "1.prems" have chk: "CHECK_BIT (ledger_bytes pool) i = Inr True"
      by (simp add: CHECK_BIT_in_range [OF rng])
    from lt have "unat (i + 1) = unat i + 1"
      by (rule unat_succ_below)
    with "1.prems" less
    have "\<exists>l'. SET_BIT (ledger_bytes pool) (of_nat k) = Inr l' \<and>
      pool_alloc_loop pool (i + 1) =
        Inr (Some (pool_data pool + of_nat k * chunk_size pool), pool\<lparr>ledger_bytes := l'\<rparr>)"
      by (intro "1.IH" [OF lt chk]) simp_all
    with lt chk show ?thesis
      by (simp add: pool_alloc_loop.simps [of pool i])
  qed
qed

text \<open>
  On a pool handle whose ledger has a bit for every chunk, \<open>pool_alloc\<close> returns
  \<open>NULL\<close> exactly when the bits of all indices below \<open>n_chunks\<close> are set, and then
  changes nothing.  Otherwise, with \<open>k\<close> the smallest index below \<open>n_chunks\<close> whose
  bit is clear, it returns \<open>data + k * chunk_size\<close> and sets bit \<open>k\<close>: every other
  ledger bit and every other field stay as they were.
\<close>

lemma pool_alloc_first_free:
  assumes "pool_valid p"
  shows "\<exists>r p'. pool_alloc (Some p) = Inr (r, p') \<and>
     (r = None \<longleftrightarrow> (\<forall>j<unat (n_chunks p). chunk_used (ledger_bytes p) j)) \<and>
     (r = None \<longrightarrow> p' = p) \<and>
     (\<forall>k. k < unat (n_chunks p) \<and> \<not> chunk_used (ledger_bytes p) k \<and>
          (\<forall>j<k. chunk_used (ledger_bytes p) j) \<longrightarrow>
        r = Some (pool_data p + of_nat k * chunk_size p) \<and>
        p' = p\<lparr>ledger_bytes := ledger_bytes p'\<rparr> \<and>
        length (ledger_bytes p') = length (ledger_bytes p) \<and>
        (\<forall>j<8 * length (ledger_bytes p).
           chunk_used (ledger_bytes p') j = (j = k \<or> chunk_used (ledger_bytes p) j)))"
proof (cases "\<forall>j<unat (n_chunks p). chunk_used (ledger_bytes p) j")
  case True
  from assms have cover: "unat (n_chunks p) \<le> 8 * length (ledger_bytes p)"
    by (simp add: pool_valid_def)
  from True have "pool_alloc_loop p 0 = Inr (None, p)"
    by (intro pool_alloc_loop_none [OF cover]) simp
  with True show ?thesis
    by (auto simp add: pool_alloc_def)
next
  case False
  from assms have cover: "unat (n_chunks p) \<le> 8 * length (ledger_bytes p)"
    by (simp add: pool_valid_def)
  define k where "k = (LEAST j. j < unat (n_chunks p) \<and> \<not> chunk_used (ledger_bytes p) j)"
  from False have ex: "\<exists>j. j < unat (n_chunks p) \<and> \<not> chunk_used (ledger_bytes p) j"
    by blast
  then have "k < unat (n_chunks p) \<and> \<not> chunk_used (ledger_bytes p) k"
    unfolding k_def by (rule LeastI_ex)
  then have k: "k < unat (n_chunks p)" "\<not> chunk_used (ledger_bytes p) k"
    by simp_all
  have before: "chunk_used (ledger_bytes p) j" if "j < k" for j
    using not_less_Least [of j "\<lambda>j. j < unat (n_chunks p) \<and> \<not> chunk_used (ledger_bytes p) j"]
      that k(1) unfolding k_def by auto
  have uniq: "k' = k"
    if "k' < unat (n_chunks p)" "\<not> chunk_used (ledger_bytes p) k'"
      "\<forall>j<k'. chunk_used (ledger_bytes p) j" for k'
    using that k before by (metis linorder_neqE_nat)
  from k before obtain l' where set: "SET_BIT (ledger_bytes p) (of_nat k) = Inr l'"
    and loop: "pool_alloc_loop p 0 =
      Inr (Some (pool_data p + of_nat k * chunk_size p), p\<lparr>ledger_bytes := l'\<rparr>)"
    using pool_alloc_loop_found [OF cover, of 0 k] by auto
  have "unat (n_chunks p) < 2 ^ LENGTH(64)"
    by (rule unsigned_less)
  with k(1) have uk: "unat (of_nat k :: size_t) = k"
    by (simp add: unat_of_nat)
  with k(1) cover have "unat (of_nat k :: size_t) < 8 * length (ledger_bytes p)"
    by simp
  from SET_BIT_in_range [OF this] set uk
  have l': "length l' = length (ledger_bytes p)"
    "\<forall>j<8 * length (ledger_bytes p). chunk_used l' j = (j = k \<or> chunk_used (ledger_bytes p) j)"
    by auto
  from loop have res: "pool_alloc (Some p) =
      Inr (Some (pool_data p + of_nat k * chunk_size p), p\<lparr>ledger_bytes := l'\<rparr>)"
    by (simp add: pool_alloc_def)
  show ?thesis
  proof (intro exI conjI)
    show "pool_alloc (Some p) =
      Inr (Some (pool_data p + of_nat k * chunk_size p), p\<lparr>ledger_bytes := l'\<rparr>)"
      by (rule res)
    show "(Some (pool_data p + of_nat k * chunk_size p) = None) =
      (\<forall>j<unat (n_chunks p). chunk_used (ledger_bytes p) j)"
      using False by simp
    show "Some (pool_data p + of_nat k * chunk_size p) = None \<longrightarrow> p\<lparr>ledger_bytes := l'\<rparr> = p"
      by simp
    show "\<forall>k'. k' < unat (n_chunks p) \<and> \<not> chunk_used (ledger_bytes p) k' \<and>
          (\<forall>j<k'. chunk_used (ledger_bytes p) j) \<longrightarrow>
        Some (pool_data p + of_nat k * chunk_size p) = Some (pool_data p + of_nat k' * chunk_size p) \<and>
        p\<lparr>ledger_bytes := l'\<rparr> = p\<lparr>ledger_bytes := ledger_bytes (p\<lparr>ledger_bytes := l'\<rparr>)\<rparr> \<and>
        length (ledger_bytes (p\<lparr>ledger_bytes := l'\<rparr>)) = length (ledger_bytes p) \<and>
        (\<forall>j<8 * length (ledger_bytes p).
           chunk_used (ledger_bytes (p\<lparr>ledger_bytes := l'\<rparr>)) j = (j = k' \<or> chunk_used (ledger_bytes p) j))"
      using l' uniq by auto
  qed
qed

lemma pool_alloc_first_free_example:
  "pool_valid \<lparr>chunk_size = 16, n_chunks = 4, pool_data = 4096, pool_ledger = 8192, ledger_bytes = [3]\<rparr> \<and>
   pool_alloc (Some \<lparr>chunk_size = 16, n_chunks = 4, pool_data = 4096, pool_ledger = 8192, ledger_bytes = [3]\<rparr>) =
     Inr (Some 4128, \<lparr>chunk_size = 16, n_chunks = 4, pool_data = 4096, pool_ledger = 8192, ledger_bytes = [7]\<rparr>) \<and>
   pool_valid \<lparr>chunk_size = 16, n_chunks = 4, pool_data = 4096, pool_ledger = 8192, ledger_bytes = [15]\<rparr> \<and>
   pool_alloc (Some \<lparr>chunk_size = 16, n_chunks = 4, pool_data = 4096, pool_ledger = 8192, ledger_bytes = [15]\<rparr>) =
     Inr (None, \<lparr>chunk_size = 16, n_chunks = 4, pool_data = 4096, pool_ledger = 8192, ledger_bytes = [15]\<rparr>)"
proof -
  have v1: "pool_valid \<lparr>chunk_size = 16, n_chunks = 4, pool_data = 4096, pool_ledger = 8192, ledger_bytes = [3]\<rparr>"
    and v2: "pool_valid \<lparr>chunk_size = 16, n_chunks = 4, pool_data = 4096, pool_ledger = 8192, ledger_bytes = [15]\<rparr>"
    by (simp_all add: pool_valid_def)
  have "pool_alloc (Some \<lparr>chunk_size = 16, n_chunks = 4, pool_data = 4096, pool_ledger = 8192, ledger_bytes = [3]\<rparr>) =
     Inr (Some 4128, \<lparr>chunk_size = 16, n_chunks = 4, pool_data = 4096, pool_ledger = 8192, ledger_bytes = [7]\<rparr>)"
    by (simp add: pool_alloc_def pool_alloc_loop.simps CHECK_BIT_def SET_BIT_def ledger_mask_def)
  moreover
  have "pool_alloc (Some \<lparr>chunk_size = 16, n_chunks = 4, pool_data = 4096, pool_ledger = 8192, ledger_bytes = [15]\<rparr>) =
     Inr (None, \<lparr>chunk_size = 16, n_chunks = 4, pool_data = 4096, pool_ledger = 8192, ledger_bytes = [15]\<rparr>)"
    by (simp add: pool_alloc_def pool_alloc_loop.simps CHECK_BIT_def SET_BIT_def ledger_mask_def)
  ultimately show ?thesis
    using v1 v2 pool_alloc_first_free [OF v1] pool_alloc_first_free [OF v2] by simp
qed

text \<open>
  C7.  The claim: on every pool handle, \<open>pool_alloc\<close> returns the chunk of the
  smallest index below \<open>n_chunks\<close> whose ledger bit is clear and sets that bit, and
  returns \<open>NULL\<close> exactly when all those bits are set.  \<open>pool_init\<close> sizes the ledger
  as \<open>(n_chunks + 7) / 8\<close> in \<open>size_t\<close>; for \<open>n_chunks > 2 ^ 64 - 8\<close> the sum wraps
  and the ledger is too short for the chunk count.  With \<open>chunk_size = 0\<close> and
  \<open>n_chunks = 2 ^ 64 - 1\<close> the handle has a ledger of 0 bytes, index 0 is within
  \<open>n_chunks\<close>, and the first \<open>pool_alloc\<close> reads byte 0 of that ledger: an access
  out of bounds, where the claim has it return the buffer base.
\<close>

theorem pool_alloc_ledger_too_short:
  "pool_init 1 4096 8192 0 18446744073709551615 =
     Some \<lparr>chunk_size = 0, n_chunks = 18446744073709551615, pool_data = 4096,
           pool_ledger = 8192, ledger_bytes = []\<rparr> \<and>
   \<not> pool_valid \<lparr>chunk_size = 0, n_chunks = 18446744073709551615, pool_data = 4096,
           pool_ledger = 8192, ledger_bytes = []\<rparr> \<and>
   pool_alloc (Some \<lparr>chunk_size = 0, n_chunks = 18446744073709551615, pool_data = 4096,
           pool_ledger = 8192, ledger_bytes = []\<rparr>) = Inl OutOfBounds"
  by (simp add: pool_init_def pool_valid_def pool_alloc_def pool_alloc_loop.simps CHECK_BIT_def)

section \<open>Giving a chunk back\<close>

text \<open>
  C9.  On a pool handle with \<open>chunk_size > 0\<close>, \<open>pool_free\<close> takes
  \<open>index = (chunk - data) / chunk_size\<close> (the integer quotient whenever \<open>chunk\<close> is
  not below the buffer base) and, when \<open>index < n_chunks\<close>, clears ledger bit
  \<open>index\<close> and no other.  With a null handle, a null \<open>chunk\<close> or
  \<open>index \<ge> n_chunks\<close> the call returns with the pool, and so every ledger bit,
  unchanged.
\<close>

theorem pool_free_spec:
  assumes "pool_valid p" and "chunk_size p \<noteq> 0"
  shows "pool_free None chunk = Inr None \<and>
     pool_free (Some p) 0 = Inr (Some p) \<and>
     (\<not> (chunk - pool_data p) div chunk_size p < n_chunks p \<longrightarrow>
        pool_free (Some p) chunk = Inr (Some p)) \<and>
     (chunk \<noteq> 0 \<and> (chunk - pool_data p) div chunk_size p < n_chunks p \<longrightarrow>
        (\<exists>l'. pool_free (Some p) chunk = Inr (Some (p\<lparr>ledger_bytes := l'\<rparr>)) \<and>
           length l' = length (ledger_bytes p) \<and>
           (\<forall>j<8 * length (ledger_bytes p).
              chunk_used l' j =
                (j \<noteq> unat ((chunk - pool_data p) div chunk_size p) \<and>
                 chunk_used (ledger_bytes p) j)))) \<and>
     (pool_data p \<le> chunk \<longrightarrow>
        unat ((chunk - pool_data p) div chunk_size p) =
          (unat chunk - unat (pool_data p)) div unat (chunk_size p))"
proof (intro conjI impI)
  show "pool_free None chunk = Inr None"
    by (simp add: pool_free_def)
  show "pool_free (Some p) 0 = Inr (Some p)"
    by (simp add: pool_free_def)
  show "pool_free (Some p) chunk = Inr (Some p)"
    if "\<not> (chunk - pool_data p) div chunk_size p < n_chunks p"
    using that assms by (simp add: pool_free_def pool_valid_def)
  show "\<exists>l'. pool_free (Some p) chunk = Inr (Some (p\<lparr>ledger_bytes := l'\<rparr>)) \<and>
           length l' = length (ledger_bytes p) \<and>
           (\<forall>j<8 * length (ledger_bytes p).
              chunk_used l' j =
                (j \<noteq> unat ((chunk - pool_data p) div chunk_size p) \<and>
                 chunk_used (ledger_bytes p) j))"
    if hit: "chunk \<noteq> 0 \<and> (chunk - pool_data p) div chunk_size p < n_chunks p"
  proof -
    let ?index = "(chunk - pool_data p) div chunk_size p"
    from hit assms(1) have "unat ?index < 8 * length (ledger_bytes p)"
      by (simp add: pool_valid_def word_less_nat_alt)
    from CLEAR_BIT_in_range [OF this] obtain l'
      where l': "CLEAR_BIT (ledger_bytes p) ?index = Inr l'" "length l' = length (ledger_bytes p)"
        "\<forall>j<8 * length (ledger_bytes p).
           chunk_used l' j = (j \<noteq> unat ?index \<and> chunk_used (ledger_bytes p) j)"
      by blast
    from hit assms l'(1) have "pool_free (Some p) chunk = Inr (Some (p\<lparr>ledger_bytes := l'\<rparr>))"
      by (simp add: pool_free_def pool_valid_def)
    with l'(2,3) show ?thesis
      by blast
  qed
  show "unat ((chunk - pool_data p) div chunk_size p) =
          (unat chunk - unat (pool_data p)) div unat (chunk_size p)"
    if "pool_data p \<le> chunk"
    using that by (simp add: unat_div unat_sub)
qed

theorem pool_free_spec_witness:
  "pool_valid \<lparr>chunk_size = 16, n_chunks = 4, pool_data = 4096, pool_ledger = 8192, ledger_bytes = [7]\<rparr> \<and>
   chunk_size \<lparr>chunk_size = 16, n_chunks = 4, pool_data = 4096, pool_ledger = 8192, ledger_bytes = [7]\<rparr> \<noteq> 0 \<and>
   pool_free (Some \<lparr>chunk_size = 16, n_chunks = 4, pool_data = 4096, pool_ledger = 8192, ledger_bytes = [7]\<rparr>) 4112 =
     Inr (Some \<lparr>chunk_size = 16, n_chunks = 4, pool_data = 4096, pool_ledger = 8192, ledger_bytes = [5]\<rparr>) \<and>
   pool_free (Some \<lparr>chunk_size = 16, n_chunks = 4, pool_data = 4096, pool_ledger = 8192, ledger_bytes = [7]\<rparr>) 4160 =
     Inr (Some \<lparr>chunk_size = 16, n_chunks = 4, pool_data = 4096, pool_ledger = 8192, ledger_bytes = [7]\<rparr>) \<and>
   pool_free (Some \<lparr>chunk_size = 16, n_chunks = 4, pool_data = 4096, pool_ledger = 8192, ledger_bytes = [7]\<rparr>) 4000 =
     Inr (Some \<lparr>chunk_size = 16, n_chunks = 4, pool_data = 4096, pool_ledger = 8192, ledger_bytes = [7]\<rparr>) \<and>
   unat ((4112 - 4096) div 16 :: size_t) = 1"
proof -
  have v: "pool_valid \<lparr>chunk_size = 16, n_chunks = 4, pool_data = 4096, pool_ledger = 8192, ledger_bytes = [7]\<rparr>"
    by (simp add: pool_valid_def)
  have c: "chunk_size \<lparr>chunk_size = 16, n_chunks = 4, pool_data = 4096, pool_ledger = 8192, ledger_bytes = [7]\<rparr> \<noteq> 0"
    by simp
  have "pool_free (Some \<lparr>chunk_size = 16, n_chunks = 4, pool_data = 4096, pool_ledger = 8192, ledger_bytes = [7]\<rparr>) 4112 =
     Inr (Some \<lparr>chunk_size = 16, n_chunks = 4, pool_data = 4096, pool_ledger = 8192, ledger_bytes = [5]\<rparr>)"
    by (simp add: pool_free_def CLEAR_BIT_def ledger_mask_def)
  moreover
  have "pool_free (Some \<lparr>chunk_size = 16, n_chunks = 4, pool_data = 4096, pool_ledger = 8192, ledger_bytes = [7]\<rparr>) 4160 =
     Inr (Some \<lparr>chunk_size = 16, n_chunks = 4, pool_data = 4096, pool_ledger = 8192, ledger_bytes = [7]\<rparr>)"
    by (simp add: pool_free_def CLEAR_BIT_def ledger_mask_def)
  moreover
  have "pool_free (Some \<lparr>chunk_size = 16, n_chunks = 4, pool_data = 4096, pool_ledger = 8192, ledger_bytes = [7]\<rparr>) 4000 =
     Inr (Some \<lparr>chunk_size = 16, n_chunks = 4, pool_data = 4096, pool_ledger = 8192, ledger_bytes = [7]\<rparr>)"
    by (simp add: pool_free_def CLEAR_BIT_def ledger_mask_def)
  ultimately show ?thesis
    using v c pool_free_spec [OF v c, of 4112] pool_free_spec [OF v c, of 4160]
    by simp
qed


section \<open>A pool of four chunks\<close>

text \<open>
  \<open>pool_init(16, 4)\<close>: four calls of \<open>pool_alloc\<close> return the four chunk addresses,
  a fifth returns \<open>NULL\<close>; after \<open>pool_free\<close> of the second chunk, \<open>pool_alloc\<close>
  returns that chunk again.
\<close>

lemma pool_of_four:
  "pool_init 1 4096 8192 16 4 =
     Some \<lparr>chunk_size = 16, n_chunks = 4, pool_data = 4096, pool_ledger = 8192, ledger_bytes = [0]\<rparr>"
  "pool_alloc (Some \<lparr>chunk_size = 16, n_chunks = 4, pool_data = 4096, pool_ledger = 8192, ledger_bytes = [0]\<rparr>) =
     Inr (Some 4096, \<lparr>chunk_size = 16, n_chunks = 4, pool_data = 4096, pool_ledger = 8192, ledger_bytes = [1]\<rparr>)"
  "pool_alloc (Some \<lparr>chunk_size = 16, n_chunks = 4, pool_data = 4096, pool_ledger = 8192, ledger_bytes = [1]\<rparr>) =
     Inr (Some 4112, \<lparr>chunk_size = 16, n_chunks = 4, pool_data = 4096, pool_ledger = 8192, ledger_bytes = [3]\<rparr>)"
  "pool_alloc (Some \<lparr>chunk_size = 16, n_chunks = 4, pool_data = 4096, pool_ledger = 8192, ledger_bytes = [3]\<rparr>) =
     Inr (Some 4128, \<lparr>chunk_size = 16, n_chunks = 4, pool_data = 4096, pool_ledger = 8192, ledger_bytes = [7]\<rparr>)"
  "pool_alloc (Some \<lparr>chunk_size = 16, n_chunks = 4, pool_data = 4096, pool_ledger = 8192, ledger_bytes = [7]\<rparr>) =
     Inr (Some 4144, \<lparr>chunk_size = 16, n_chunks = 4, pool_data = 4096, pool_ledger = 8192, ledger_bytes = [15]\<rparr>)"
  "pool_alloc (Some \<lparr>chunk_size = 16, n_chunks = 4, pool_data = 4096, pool_ledger = 8192, ledger_bytes = [15]\<rparr>) =
     Inr (None, \<lparr>chunk_size = 16, n_chunks = 4, pool_data = 4096, pool_ledger = 8192, ledger_bytes = [15]\<rparr>)"
  "pool_free (Some \<lparr>chunk_size = 16, n_chunks = 4, pool_data = 4096, pool_ledger = 8192, ledger_bytes = [15]\<rparr>) 4112 =
     Inr (Some \<lparr>chunk_size = 16, n_chunks = 4, pool_data = 4096, pool_ledger = 8192, ledger_bytes = [13]\<rparr>)"
  "pool_alloc (Some \<lparr>chunk_size = 16, n_chunks = 4, pool_data = 4096, pool_ledger = 8192, ledger_bytes = [13]\<rparr>) =
     Inr (Some 4112, \<lparr>chunk_size = 16, n_chunks = 4, pool_data = 4096, pool_ledger = 8192, ledger_bytes = [15]\<rparr>)"
  by (simp_all add: pool_init_def pool_alloc_def pool_alloc_loop.simps pool_free_def
      CHECK_BIT_def SET_BIT_def CLEAR_BIT_def ledger_mask_def)


end
